theory Spec2Isabelle
  imports Main "HOL-Library.AList"
begin

section \<open>The Strava bot: data\<close>

text \<open>
  The model follows \<^verbatim>\<open>claude-ai-bot.py\<close>. The class \<^verbatim>\<open>StravaBot\<close> keeps two
  dictionaries, \<^verbatim>\<open>athlete_tokens\<close> and \<^verbatim>\<open>last_checked\<close>, keyed by athlete id. A Python
  dictionary iterates in insertion order, assigning to a present key keeps its place and
  assigning to a new key appends it: this is an association list under \<open>AList.update\<close>,
  and \<^verbatim>\<open>del d[k]\<close> on a present key is \<open>AList.delete\<close>.

  A \<^verbatim>\<open>datetime\<close> is represented by its count of microseconds on the local time line.
  The program stores \<^verbatim>\<open>datetime.now().isoformat()\<close> and reads it back with
  \<^verbatim>\<open>datetime.fromisoformat\<close>, which is the identity on such values, so the stored string
  is modelled by the instant itself. Such a string is never empty, so the test
  \<^verbatim>\<open>if last_check:\<close> is the test that the athlete has an entry; a state file is taken to
  hold strings of this form.
\<close>

type_synonym athlete_id = string
type_synonym access_token = string
type_synonym timestamp = int
type_synonym 'v dict = "(athlete_id \<times> 'v) list"

text \<open>
  An activity as the Strava API returns it. Only the fields that identify and date an
  activity are kept; the other fields are read by the rendering of the embed alone.
\<close>

record activity =
  act_id :: nat
  start_date_local :: timestamp

record bot =
  athlete_tokens :: "access_token dict"
  last_checked :: "timestamp dict"

datatype error =
    OSError
  | KeyError athlete_id
  | ClientError
  | DeliveryError
  | LoadError

text \<open>
  What the program does to the outside world, in the order it does it: the GET request
  of \<^verbatim>\<open>get_recent_activities\<close> with its \<^verbatim>\<open>after\<close> parameter, a message delivered by
  \<^verbatim>\<open>channel.send\<close>, the lines written to the log, and the file written by \<^verbatim>\<open>json.dump\<close>
  in \<^verbatim>\<open>save_data\<close> with both dictionaries in it.
\<close>

datatype event =
    Get athlete_id access_token int
  | Send athlete_id activity
  | Log_fetch_failed nat
  | Log_athlete_error athlete_id
  | Log_no_channel
  | Log_no_saved_data
  | Dump "access_token dict" "timestamp dict"

text \<open>
  A method mutates the bot in place, so the state it leaves is returned also when it
  raises: \<open>raised\<close> is the exception that leaves the method, if any.
\<close>

record effect =
  state :: bot
  trace :: "event list"
  raised :: "error option"

section \<open>The environment\<close>

text \<open>
  The file read at startup: absent, unreadable (any exception of \<^verbatim>\<open>open\<close> or
  \<^verbatim>\<open>json.load\<close> other than \<^verbatim>\<open>FileNotFoundError\<close>), or a JSON object in which each of the
  two keys may be missing.
\<close>

datatype data_file =
    File_not_found
  | Unreadable
  | Json "access_token dict option" "timestamp dict option"

text \<open>
  The answer of the remote API to one GET: the request raises (network failure, or a
  body that is not JSON), or it returns a status code and a list of activities.
\<close>

datatype response =
    Fetch_raises
  | Status nat "activity list"

text \<open>
  What one pass of the loop body of \<^verbatim>\<open>check_activities\<close> meets for one athlete: the
  answer to the GET, whether the \<open>i\<close>-th call of \<^verbatim>\<open>post_activity\<close> returns (\<open>sink i\<close>) or
  raises, the clock read by \<^verbatim>\<open>get_recent_activities\<close> and the clock read when the
  timestamp is updated. The clock is \<^verbatim>\<open>datetime.now()\<close>, a naive local time; \<open>utc_offset\<close>
  is the rule of the machine's time zone, which gives for a local time its offset from
  UTC in microseconds (daylight saving included).
\<close>

record athlete_env =
  fetch :: response
  sink :: "nat \<Rightarrow> bool"
  now_window :: timestamp
  now_update :: timestamp
  utc_offset :: "timestamp \<Rightarrow> int"

text \<open>
  One run of \<^verbatim>\<open>check_activities\<close>: whether \<^verbatim>\<open>get_channel\<close> finds the channel, what each
  athlete meets, and whether writing the file succeeds.
\<close>

record cycle_env =
  channel :: bool
  athletes :: "athlete_id \<Rightarrow> athlete_env"
  disk :: bool

section \<open>Persistence\<close>

definition save_data :: "bool \<Rightarrow> bot \<Rightarrow> event list \<times> error option" where
  "save_data disk_ok s =
     (if disk_ok then ([Dump (athlete_tokens s) (last_checked s)], None)
      else ([], Some OSError))"

definition load_data :: "data_file \<Rightarrow> bot \<Rightarrow> effect" where
  "load_data f s =
     (case f of
        File_not_found \<Rightarrow> \<lparr>state = s, trace = [Log_no_saved_data], raised = None\<rparr>
      | Unreadable \<Rightarrow> \<lparr>state = s, trace = [], raised = Some LoadError\<rparr>
      | Json toks lc \<Rightarrow>
          \<lparr>state = \<lparr>athlete_tokens = (case toks of None \<Rightarrow> [] | Some d \<Rightarrow> d),
                     last_checked = (case lc of None \<Rightarrow> [] | Some d \<Rightarrow> d)\<rparr>,
           trace = [], raised = None\<rparr>)"

text \<open>\<^verbatim>\<open>StravaBot.__init__\<close>: both dictionaries empty, then \<^verbatim>\<open>load_data\<close>.\<close>

definition init :: "data_file \<Rightarrow> effect" where
  "init f = load_data f \<lparr>athlete_tokens = [], last_checked = []\<rparr>"

section \<open>The commands\<close>

text \<open>
  \<^verbatim>\<open>set_token\<close> with the clock reading \<open>now\<close>. The reply \<^verbatim>\<open>ctx.send\<close> is the last
  statement of each command and touches neither dictionary nor the file; it is left out.
\<close>

definition set_token :: "timestamp \<Rightarrow> bool \<Rightarrow> athlete_id \<Rightarrow> access_token \<Rightarrow> bot \<Rightarrow> effect" where
  "set_token now disk_ok athlete_id token s =
     (let s1 = s\<lparr>athlete_tokens := AList.update athlete_id token (athlete_tokens s)\<rparr>;
          s2 = s1\<lparr>last_checked := AList.update athlete_id now (last_checked s1)\<rparr>;
          (evs, err) = save_data disk_ok s2
      in \<lparr>state = s2, trace = evs, raised = err\<rparr>)"

text \<open>
  \<^verbatim>\<open>remove_athlete\<close>. The second \<^verbatim>\<open>del\<close> raises \<^verbatim>\<open>KeyError\<close> when the id has a token and
  no timestamp; the token is gone by then and nothing is saved.
\<close>

definition remove_athlete :: "bool \<Rightarrow> athlete_id \<Rightarrow> bot \<Rightarrow> effect" where
  "remove_athlete disk_ok athlete_id s =
     (if athlete_id \<in> set (map fst (athlete_tokens s)) then
        (let s1 = s\<lparr>athlete_tokens := AList.delete athlete_id (athlete_tokens s)\<rparr>
         in if athlete_id \<in> set (map fst (last_checked s1)) then
              (let s2 = s1\<lparr>last_checked := AList.delete athlete_id (last_checked s1)\<rparr>;
                   (evs, err) = save_data disk_ok s2
               in \<lparr>state = s2, trace = evs, raised = err\<rparr>)
            else \<lparr>state = s1, trace = [], raised = Some (KeyError athlete_id)\<rparr>)
      else \<lparr>state = s, trace = [], raised = None\<rparr>)"

section \<open>The polling cycle\<close>

text \<open>
  \<^verbatim>\<open>int(d.timestamp())\<close> for a naive local time \<open>d\<close>: the local time is taken to POSIX
  time through the zone's offset, and the result is cut to whole seconds, towards zero.
  The float in between is exact to the microsecond at present-day instants.
\<close>

definition epoch_seconds :: "(timestamp \<Rightarrow> int) \<Rightarrow> timestamp \<Rightarrow> int" where
  "epoch_seconds offset t =
     (let posix = t - offset t
      in if 0 \<le> posix then posix div 1000000 else - ((- posix) div 1000000))"

definition hours_24 :: timestamp where
  "hours_24 = 24 * 3600 * 1000000"

text \<open>
  The time window of \<^verbatim>\<open>get_recent_activities\<close>: since the last check, or the last 24
  hours when \<^verbatim>\<open>last_checked\<close> has no entry for the athlete.
\<close>

definition after_timestamp :: "athlete_env \<Rightarrow> bot \<Rightarrow> athlete_id \<Rightarrow> int" where
  "after_timestamp env s athlete_id =
     (case map_of (last_checked s) athlete_id of
        Some last_check \<Rightarrow> epoch_seconds (utc_offset env) last_check
      | None \<Rightarrow> epoch_seconds (utc_offset env) (now_window env - hours_24))"

definition get_recent_activities ::
  "athlete_env \<Rightarrow> bot \<Rightarrow> athlete_id \<Rightarrow> access_token \<Rightarrow> event list \<times> (error + activity list)" where
  "get_recent_activities env s athlete_id token =
     (let request = Get athlete_id token (after_timestamp env s athlete_id)
      in case fetch env of
           Fetch_raises \<Rightarrow> ([request], Inl ClientError)
         | Status code body \<Rightarrow>
             if code = 200 then ([request], Inr body)
             else ([request, Log_fetch_failed code], Inr []))"

text \<open>
  \<^verbatim>\<open>post_activity\<close> builds the embed and sends it. Building reads fields of the activity
  and may raise before anything is sent; sending may raise. Either way nothing is
  delivered, and the model has one failure for both.
\<close>

definition post_activity :: "bool \<Rightarrow> athlete_id \<Rightarrow> activity \<Rightarrow> event list \<times> error option" where
  "post_activity ok athlete_id a =
     (if ok then ([Send athlete_id a], None) else ([], Some DeliveryError))"

text \<open>The inner loop \<^verbatim>\<open>for activity in activities\<close>; an exception ends it.\<close>

fun post_activities ::
  "(nat \<Rightarrow> bool) \<Rightarrow> athlete_id \<Rightarrow> nat \<Rightarrow> activity list \<Rightarrow> event list \<times> error option" where
  "post_activities snk athlete_id i [] = ([], None)"
| "post_activities snk athlete_id i (a # as) =
     (case post_activity (snk i) athlete_id a of
        (evs, Some e) \<Rightarrow> (evs, Some e)
      | (evs, None) \<Rightarrow>
          (case post_activities snk athlete_id (Suc i) as of
             (evs', err) \<Rightarrow> (evs @ evs', err)))"

text \<open>
  The body of the outer loop: the \<^verbatim>\<open>try\<close> block and its \<^verbatim>\<open>except Exception\<close>, which logs
  and goes on. The timestamp is updated only when the \<^verbatim>\<open>try\<close> block reaches its end.
\<close>

definition check_athlete :: "athlete_env \<Rightarrow> athlete_id \<Rightarrow> access_token \<Rightarrow> bot \<Rightarrow> bot \<times> event list" where
  "check_athlete env athlete_id token s =
     (case get_recent_activities env s athlete_id token of
        (evs, Inl e) \<Rightarrow> (s, evs @ [Log_athlete_error athlete_id])
      | (evs, Inr activities) \<Rightarrow>
          (case post_activities (sink env) athlete_id 0 activities of
             (evs', Some e) \<Rightarrow> (s, evs @ evs' @ [Log_athlete_error athlete_id])
           | (evs', None) \<Rightarrow>
               (s\<lparr>last_checked := AList.update athlete_id (now_update env) (last_checked s)\<rparr>,
                evs @ evs')))"

text \<open>The outer loop \<^verbatim>\<open>for athlete_id, access_token in self.athlete_tokens.items()\<close>.\<close>

fun for_athletes ::
  "(athlete_id \<Rightarrow> athlete_env) \<Rightarrow> access_token dict \<Rightarrow> bot \<Rightarrow> bot \<times> event list" where
  "for_athletes envs [] s = (s, [])"
| "for_athletes envs ((athlete_id, token) # rest) s =
     (case check_athlete (envs athlete_id) athlete_id token s of
        (s1, evs) \<Rightarrow>
          (case for_athletes envs rest s1 of
             (s2, evs') \<Rightarrow> (s2, evs @ evs')))"

definition check_activities :: "cycle_env \<Rightarrow> bot \<Rightarrow> effect" where
  "check_activities env s =
     (if athlete_tokens s = [] then \<lparr>state = s, trace = [], raised = None\<rparr>
      else if \<not> channel env then \<lparr>state = s, trace = [Log_no_channel], raised = None\<rparr>
      else
        (case for_athletes (athletes env) (athlete_tokens s) s of
           (s', evs) \<Rightarrow>
             (case save_data (disk env) s' of
                (evs', err) \<Rightarrow> \<lparr>state = s', trace = evs @ evs', raised = err\<rparr>)))"

section \<open>Runs and observations\<close>

text \<open>Successive polling cycles: the bot after each of them.\<close>

fun cycles :: "cycle_env list \<Rightarrow> bot \<Rightarrow> bot list" where
  "cycles [] s = []"
| "cycles (env # envs) s =
     (let s' = state (check_activities env s) in s' # cycles envs s')"

text \<open>
  Everything that changes the two dictionaries after startup: the two commands and the
  polling cycle, each with what it meets in the environment.
\<close>

datatype operation =
    Set_token timestamp bool athlete_id access_token
  | Remove_athlete bool athlete_id
  | Check_activities cycle_env

fun step :: "operation \<Rightarrow> bot \<Rightarrow> effect" where
  "step (Set_token now disk_ok athlete_id token) s = set_token now disk_ok athlete_id token s"
| "step (Remove_athlete disk_ok athlete_id) s = remove_athlete disk_ok athlete_id s"
| "step (Check_activities env) s = check_activities env s"

text \<open>
  The bot after a sequence of operations; an operation that raises leaves its state. The
  operations are taken one at a time: a command handled while a cycle is suspended in an
  \<^verbatim>\<open>await\<close> is outside this model.
\<close>

fun run :: "operation list \<Rightarrow> bot \<Rightarrow> bot" where
  "run [] s = s"
| "run (op # ops) s = run ops (state (step op s))"

definition watermark :: "bot \<Rightarrow> athlete_id \<Rightarrow> timestamp option" where
  "watermark s athlete_id = map_of (last_checked s) athlete_id"

text \<open>The timestamps an athlete has in a sequence of states, where it has one.\<close>

fun watermarks :: "athlete_id \<Rightarrow> bot list \<Rightarrow> timestamp list" where
  "watermarks athlete_id [] = []"
| "watermarks athlete_id (s # ss) =
     (case watermark s athlete_id of
        None \<Rightarrow> watermarks athlete_id ss
      | Some t \<Rightarrow> t # watermarks athlete_id ss)"

definition keys :: "'v dict \<Rightarrow> athlete_id set" where
  "keys d = set (map fst d)"

text \<open>The activities delivered for an athlete in a trace, in the order of delivery.\<close>

fun sent_to :: "athlete_id \<Rightarrow> event list \<Rightarrow> activity list" where
  "sent_to athlete_id [] = []"
| "sent_to athlete_id (Send athlete_id' a # evs) =
     (if athlete_id' = athlete_id then a # sent_to athlete_id evs else sent_to athlete_id evs)"
| "sent_to athlete_id (_ # evs) = sent_to athlete_id evs"

text \<open>The GET requests of a trace: whose activities were asked for, with which token.\<close>

fun fetched :: "event list \<Rightarrow> (athlete_id \<times> access_token) list" where
  "fetched [] = []"
| "fetched (Get athlete_id token after # evs) = (athlete_id, token) # fetched evs"
| "fetched (_ # evs) = fetched evs"

text \<open>The \<^verbatim>\<open>after\<close> parameter of the GET requests made for an athlete.\<close>

fun windows :: "athlete_id \<Rightarrow> event list \<Rightarrow> int list" where
  "windows athlete_id [] = []"
| "windows athlete_id (Get athlete_id' token after # evs) =
     (if athlete_id' = athlete_id then after # windows athlete_id evs
      else windows athlete_id evs)"
| "windows athlete_id (_ # evs) = windows athlete_id evs"

text \<open>
  The activities the inner loop delivers: those before the first call of
  \<^verbatim>\<open>post_activity\<close> that raises.
\<close>

fun delivered :: "(nat \<Rightarrow> bool) \<Rightarrow> nat \<Rightarrow> activity list \<Rightarrow> activity list" where
  "delivered snk i [] = []"
| "delivered snk i (a # as) = (if snk i then a # delivered snk (Suc i) as else [])"

definition deliveries :: "athlete_env \<Rightarrow> activity list" where
  "deliveries env =
     (case fetch env of
        Fetch_raises \<Rightarrow> []
      | Status code body \<Rightarrow> if code = 200 then delivered (sink env) 0 body else [])"

fun is_dump :: "event \<Rightarrow> bool" where
  "is_dump (Dump toks lc) = True"
| "is_dump _ = False"

text \<open>
  The \<^verbatim>\<open>try\<close> block of the loop body reaches its end: the GET returned and no
  \<^verbatim>\<open>post_activity\<close> raised.
\<close>

definition completes :: "athlete_env \<Rightarrow> bool" where
  "completes env =
     (case fetch env of
        Fetch_raises \<Rightarrow> False
      | Status code body \<Rightarrow>
          code \<noteq> 200 \<or> snd (post_activities (sink env) [] 0 body) = None)"

section \<open>Scenarios\<close>

text \<open>
  A bot with one athlete, and one with two, every timestamp being \<open>t\<close>; and a cycle in
  which the channel is found, the file is written, and every athlete meets the same
  answer, the same sink and the same clock reading. The machine of the scenarios keeps
  UTC.
\<close>

definition one_athlete :: "timestamp \<Rightarrow> bot" where
  "one_athlete t = \<lparr>athlete_tokens = [(''U1'', ''token1'')], last_checked = [(''U1'', t)]\<rparr>"

definition two_athletes :: "timestamp \<Rightarrow> bot" where
  "two_athletes t =
     \<lparr>athlete_tokens = [(''U1'', ''token1''), (''U2'', ''token2'')],
      last_checked = [(''U1'', t), (''U2'', t)]\<rparr>"

definition uniform_cycle :: "response \<Rightarrow> (nat \<Rightarrow> bool) \<Rightarrow> timestamp \<Rightarrow> cycle_env" where
  "uniform_cycle r snk now =
     \<lparr>channel = True,
      athletes = (\<lambda>_. \<lparr>fetch = r, sink = snk, now_window = now, now_update = now,
                        utc_offset = (\<lambda>_. 0)\<rparr>),
      disk = True\<rparr>"

text \<open>
  A cycle in which the athlete \<open>a\<close> meets the answer \<open>r\<close> and every other athlete an
  empty list of activities with status 200.
\<close>

definition cycle_for :: "athlete_id \<Rightarrow> response \<Rightarrow> timestamp \<Rightarrow> cycle_env" where
  "cycle_for a r now =
     \<lparr>channel = True,
      athletes = (\<lambda>a'. \<lparr>fetch = (if a' = a then r else Status 200 []), sink = (\<lambda>_. True),
                         now_window = now, now_update = now, utc_offset = (\<lambda>_. 0)\<rparr>),
      disk = True\<rparr>"

section \<open>Lemmas on the loops\<close>

text \<open>The equations that evaluate a cycle or a command on a concrete bot.\<close>

lemmas evaluation =
  check_activities_def check_athlete_def get_recent_activities_def after_timestamp_def
  post_activity_def save_data_def epoch_seconds_def hours_24_def set_token_def
  remove_athlete_def init_def load_data_def watermark_def keys_def
  uniform_cycle_def cycle_for_def one_athlete_def two_athletes_def


lemma post_activities_Cons_fst:
  "fst (post_activities snk aid i (a # acts)) =
     (if snk i then Send aid a # fst (post_activities snk aid (Suc i) acts) else [])"
  by (simp add: post_activity_def split: prod.splits)

lemma post_activities_Cons_snd:
  "snd (post_activities snk aid i (a # acts)) =
     (if snk i then snd (post_activities snk aid (Suc i) acts) else Some DeliveryError)"
  by (simp add: post_activity_def split: prod.splits)

lemma post_activities_error_indep:
  "snd (post_activities snk aid i acts) = snd (post_activities snk aid' i acts)"
  by (induction acts arbitrary: i) (simp_all add: post_activities_Cons_snd del: post_activities.simps(2))

lemma post_activities_all_ok:
  "(\<forall>j < length acts. snk (i + j)) \<Longrightarrow>
   post_activities snk aid i acts = (map (Send aid) acts, None)"
proof (induction acts arbitrary: i)
  case Nil
  then show ?case by simp
next
  case (Cons a acts)
  have "snk i" using Cons.prems by force
  moreover have "\<forall>j < length acts. snk (Suc i + j)"
    using Cons.prems by fastforce
  ultimately show ?case
    using Cons.IH [of "Suc i"] by (simp add: post_activity_def)
qed

lemma post_activities_fails_at:
  "k < length acts \<Longrightarrow> (\<forall>j < k. snk (i + j)) \<Longrightarrow> \<not> snk (i + k) \<Longrightarrow>
   post_activities snk aid i acts = (map (Send aid) (take k acts), Some DeliveryError)"
proof (induction acts arbitrary: i k)
  case Nil
  then show ?case by simp
next
  case (Cons a acts)
  show ?case
  proof (cases k)
    case 0
    then show ?thesis using Cons.prems by (simp add: post_activity_def)
  next
    case (Suc k')
    have "snk i" using Cons.prems Suc by force
    moreover have "k' < length acts" using Cons.prems Suc by simp
    moreover have "\<forall>j < k'. snk (Suc i + j)" using Cons.prems Suc by fastforce
    moreover have "\<not> snk (Suc i + k')" using Cons.prems Suc by simp
    ultimately show ?thesis
      using Cons.IH [of k' "Suc i"] Suc by (simp add: post_activity_def)
  qed
qed

lemma post_activities_prefix:
  "\<exists>k \<le> length acts. fst (post_activities snk aid i acts) = map (Send aid) (take k acts)"
proof (induction acts arbitrary: i)
  case Nil
  then show ?case by simp
next
  case (Cons a acts)
  show ?case
  proof (cases "snk i")
    case False
    then have "fst (post_activities snk aid i (a # acts)) = map (Send aid) (take 0 (a # acts))"
      by (simp add: post_activity_def)
    then show ?thesis by blast
  next
    case True
    obtain k where k: "k \<le> length acts"
      "fst (post_activities snk aid (Suc i) acts) = map (Send aid) (take k acts)"
      using Cons.IH by blast
    have "fst (post_activities snk aid i (a # acts)) = map (Send aid) (take (Suc k) (a # acts))"
      using True k by (simp add: post_activities_Cons_fst del: post_activities.simps(2))
    moreover have "Suc k \<le> length (a # acts)" using k by simp
    ultimately show ?thesis by blast
  qed
qed

lemma sent_to_append: "sent_to aid (xs @ ys) = sent_to aid xs @ sent_to aid ys"
  by (induction aid xs rule: sent_to.induct) auto

lemma sent_to_Send: "sent_to aid (map (Send aid') acts) = (if aid' = aid then acts else [])"
  by (induction acts) auto

lemma fetched_append: "fetched (xs @ ys) = fetched xs @ fetched ys"
  by (induction xs rule: fetched.induct) auto

lemma windows_append: "windows aid (xs @ ys) = windows aid xs @ windows aid ys"
  by (induction aid xs rule: windows.induct) auto

lemma fetched_Send: "fetched (map (Send aid) acts) = []"
  by (induction acts) auto

lemma windows_Send: "windows aid (map (Send aid') acts) = []"
  by (induction acts) auto


lemma post_activities_delivered:
  "fst (post_activities snk aid i acts) = map (Send aid) (delivered snk i acts)"
  by (induction acts arbitrary: i)
     (simp_all add: post_activities_Cons_fst del: post_activities.simps(2))

lemma delivered_take: "\<exists>k \<le> length acts. delivered snk i acts = take k acts"
  using post_activities_prefix [of acts snk "[]" i]
  by (auto simp: post_activities_delivered inj_on_def dest!: map_injective)

lemma delivered_all_ok:
  "(\<forall>j < length acts. snk (i + j)) \<Longrightarrow> delivered snk i acts = acts"
  using post_activities_all_ok [of acts snk i "[]"]
        post_activities_delivered [of snk "[]" i acts]
  by (auto simp: inj_on_def dest!: map_injective)

lemma delivered_fails_at:
  "k < length acts \<Longrightarrow> (\<forall>j < k. snk (i + j)) \<Longrightarrow> \<not> snk (i + k) \<Longrightarrow>
   delivered snk i acts = take k acts"
  using post_activities_fails_at [of k acts snk i "[]"]
        post_activities_delivered [of snk "[]" i acts]
  by (auto simp: inj_on_def dest!: map_injective)

lemma snd_post_activities_fails_at:
  "k < length acts \<Longrightarrow> (\<forall>j < k. snk (i + j)) \<Longrightarrow> \<not> snk (i + k) \<Longrightarrow>
   snd (post_activities snk aid i acts) = Some DeliveryError"
  by (simp add: post_activities_fails_at)

lemma check_athlete_unfold:
  "check_athlete env aid tok s =
     (if completes env
      then s\<lparr>last_checked := AList.update aid (now_update env) (last_checked s)\<rparr>
      else s,
      Get aid tok (after_timestamp env s aid)
        # (case fetch env of
             Fetch_raises \<Rightarrow> [Log_athlete_error aid]
           | Status code body \<Rightarrow>
               if code = 200
               then map (Send aid) (delivered (sink env) 0 body)
                      @ (if completes env then [] else [Log_athlete_error aid])
               else [Log_fetch_failed code]))"
proof (cases "fetch env")
  case Fetch_raises
  then show ?thesis
    by (simp add: check_athlete_def get_recent_activities_def completes_def)
next
  case (Status code body)
  show ?thesis
  proof (cases "code = 200")
    case False
    then show ?thesis using Status
      by (simp add: check_athlete_def get_recent_activities_def completes_def)
  next
    case True
    obtain evs err where p: "post_activities (sink env) aid 0 body = (evs, err)"
      by (cases "post_activities (sink env) aid 0 body")
    have evs: "evs = map (Send aid) (delivered (sink env) 0 body)"
      using p post_activities_delivered [of "sink env" aid 0 body] by simp
    have err: "snd (post_activities (sink env) [] 0 body) = err"
      using p post_activities_error_indep [of "sink env" "[]" 0 body aid] by simp
    show ?thesis using Status True p evs err
      by (cases err) (simp_all add: check_athlete_def get_recent_activities_def completes_def)
  qed
qed


lemma for_athletes_Cons:
  "for_athletes envs ((aid, tok) # rest) s =
     (fst (for_athletes envs rest (fst (check_athlete (envs aid) aid tok s))),
      snd (check_athlete (envs aid) aid tok s)
        @ snd (for_athletes envs rest (fst (check_athlete (envs aid) aid tok s))))"
  by (simp split: prod.splits)

lemma fst_check_athlete:
  "fst (check_athlete env aid tok s) =
     (if completes env
      then s\<lparr>last_checked := AList.update aid (now_update env) (last_checked s)\<rparr>
      else s)"
  by (simp add: check_athlete_unfold)

lemma keys_Nil: "keys [] = {}"
  by (simp add: keys_def)

lemma keys_Cons: "keys ((a, v) # d) = insert a (keys d)"
  by (simp add: keys_def)

lemma keys_update: "keys (AList.update a v d) = insert a (keys d)"
  using dom_update [of a v d] by (simp add: keys_def)

lemma keys_delete: "keys (AList.delete a d) = keys d - {a}"
  by (auto simp: keys_def AList.delete_eq)

lemma watermark_update:
  "watermark (s\<lparr>last_checked := AList.update a t (last_checked s)\<rparr>) aid =
     (if aid = a then Some t else watermark s aid)"
  by (simp add: watermark_def update_conv')

lemma for_athletes_tokens:
  "athlete_tokens (fst (for_athletes envs toks s)) = athlete_tokens s"
proof (induction toks arbitrary: s)
  case Nil
  then show ?case by simp
next
  case (Cons p toks)
  obtain aid tok where p: "p = (aid, tok)" by (cases p)
  show ?case unfolding p for_athletes_Cons
    by (simp add: Cons.IH fst_check_athlete)
qed

lemma for_athletes_watermark:
  "watermark (fst (for_athletes envs toks s)) aid =
     (if aid \<in> keys toks \<and> completes (envs aid) then Some (now_update (envs aid))
      else watermark s aid)"
proof (induction toks arbitrary: s)
  case Nil
  then show ?case by (simp add: keys_Nil)
next
  case (Cons p toks)
  obtain a tok where p: "p = (a, tok)" by (cases p)
  show ?case unfolding p for_athletes_Cons
    by (simp add: Cons.IH fst_check_athlete keys_Cons watermark_update)
qed

lemma for_athletes_keys:
  "keys (last_checked (fst (for_athletes envs toks s))) =
     keys (last_checked s) \<union> {a \<in> keys toks. completes (envs a)}"
proof (induction toks arbitrary: s)
  case Nil
  then show ?case by (simp add: keys_Nil)
next
  case (Cons p toks)
  obtain a tok where p: "p = (a, tok)" by (cases p)
  show ?case unfolding p for_athletes_Cons
    by (auto simp: Cons.IH fst_check_athlete keys_Cons keys_update)
qed

lemma fetched_check_athlete: "fetched (snd (check_athlete env aid tok s)) = [(aid, tok)]"
  by (simp add: check_athlete_unfold fetched_append fetched_Send split: response.splits)

lemma for_athletes_fetched: "fetched (snd (for_athletes envs toks s)) = toks"
proof (induction toks arbitrary: s)
  case Nil
  then show ?case by simp
next
  case (Cons p toks)
  obtain a tok where p: "p = (a, tok)" by (cases p)
  show ?case unfolding p for_athletes_Cons
    by (simp add: Cons.IH fetched_append fetched_check_athlete)
qed

lemma check_athlete_no_dump: "e \<in> set (snd (check_athlete env aid tok s)) \<Longrightarrow> \<not> is_dump e"
  by (auto simp: check_athlete_unfold split: response.splits if_splits)

lemma for_athletes_no_dump: "e \<in> set (snd (for_athletes envs toks s)) \<Longrightarrow> \<not> is_dump e"
proof (induction toks arbitrary: s)
  case Nil
  then show ?case by simp
next
  case (Cons p toks)
  obtain a tok where p: "p = (a, tok)" by (cases p)
  show ?case using Cons.prems unfolding p for_athletes_Cons
    by (auto dest: check_athlete_no_dump Cons.IH)
qed

lemma sent_to_check_athlete:
  "sent_to aid (snd (check_athlete env a tok s)) = (if a = aid then deliveries env else [])"
  by (simp add: check_athlete_unfold sent_to_append sent_to_Send deliveries_def
           split: response.splits)

lemma for_athletes_sent:
  "distinct (map fst toks) \<Longrightarrow>
   sent_to aid (snd (for_athletes envs toks s)) =
     (if aid \<in> keys toks then deliveries (envs aid) else [])"
proof (induction toks arbitrary: s)
  case Nil
  then show ?case by (simp add: keys_Nil)
next
  case (Cons p toks)
  obtain a tok where p: "p = (a, tok)" by (cases p)
  have d: "distinct (map fst toks)" and n: "a \<notin> keys toks"
    using Cons.prems by (simp_all add: p keys_def)
  show ?case unfolding p for_athletes_Cons using n
    by (auto simp: Cons.IH [OF d] sent_to_append sent_to_check_athlete keys_Cons)
qed

lemma windows_check_athlete:
  "windows aid (snd (check_athlete env a tok s)) =
     (if a = aid then [after_timestamp env s aid] else [])"
  by (simp add: check_athlete_unfold windows_append windows_Send split: response.splits)

lemma after_timestamp_update:
  "a \<noteq> aid \<Longrightarrow>
   after_timestamp env (s\<lparr>last_checked := AList.update a t (last_checked s)\<rparr>) aid =
     after_timestamp env s aid"
  by (simp add: after_timestamp_def update_conv')

lemma for_athletes_windows:
  "distinct (map fst toks) \<Longrightarrow>
   windows aid (snd (for_athletes envs toks s)) =
     (if aid \<in> keys toks then [after_timestamp (envs aid) s aid] else [])"
proof (induction toks arbitrary: s)
  case Nil
  then show ?case by (simp add: keys_Nil)
next
  case (Cons p toks)
  obtain a tok where p: "p = (a, tok)" by (cases p)
  have d: "distinct (map fst toks)" and n: "a \<notin> keys toks"
    using Cons.prems by (simp_all add: p keys_def)
  show ?case unfolding p for_athletes_Cons using n
    by (auto simp: Cons.IH [OF d] windows_append windows_check_athlete keys_Cons
                   fst_check_athlete after_timestamp_update)
qed


lemma check_activities_running:
  "athlete_tokens s \<noteq> [] \<Longrightarrow> channel env \<Longrightarrow>
   check_activities env s =
     \<lparr>state = fst (for_athletes (athletes env) (athlete_tokens s) s),
      trace = snd (for_athletes (athletes env) (athlete_tokens s) s)
                @ (if disk env
                   then [Dump (athlete_tokens s)
                           (last_checked (fst (for_athletes (athletes env) (athlete_tokens s) s)))]
                   else []),
      raised = (if disk env then None else Some OSError)\<rparr>"
  by (simp add: check_activities_def save_data_def for_athletes_tokens case_prod_beta)

lemma check_activities_idle:
  "athlete_tokens s = [] \<or> \<not> channel env \<Longrightarrow> state (check_activities env s) = s"
  by (auto simp: check_activities_def)

lemma keys_nonempty: "aid \<in> keys d \<Longrightarrow> d \<noteq> []"
  by (auto simp: keys_def)

lemma check_activities_watermark:
  "watermark (state (check_activities env s)) aid =
     (if channel env \<and> aid \<in> keys (athlete_tokens s) \<and> completes (athletes env aid)
      then Some (now_update (athletes env aid))
      else watermark s aid)"
proof (cases "athlete_tokens s = [] \<or> \<not> channel env")
  case True
  then show ?thesis
    using check_activities_idle [OF True] keys_nonempty [of aid "athlete_tokens s"] by auto
next
  case False
  then show ?thesis
    by (simp add: check_activities_running for_athletes_watermark)
qed

lemma watermarks_cycles_cases:
  "t \<in> set (watermarks aid (cycles envs s)) \<Longrightarrow>
   watermark s aid = Some t \<or> t \<in> (\<lambda>env. now_update (athletes env aid)) ` set envs"
proof (induction envs arbitrary: s)
  case Nil
  then show ?case by simp
next
  case (Cons env envs)
  let ?s' = "state (check_activities env s)"
  from Cons.prems have "watermark ?s' aid = Some t \<or> t \<in> set (watermarks aid (cycles envs ?s'))"
    by (auto simp: Let_def split: option.splits)
  then have "watermark ?s' aid = Some t \<or> t \<in> (\<lambda>env. now_update (athletes env aid)) ` set envs"
    using Cons.IH [of ?s'] by blast
  then show ?case
    by (auto simp: check_activities_watermark split: if_splits)
qed

lemma check_activities_sent:
  "distinct (map fst (athlete_tokens s)) \<Longrightarrow> aid \<in> keys (athlete_tokens s) \<Longrightarrow> channel env \<Longrightarrow>
   sent_to aid (trace (check_activities env s)) = deliveries (athletes env aid)"
  using keys_nonempty [of aid "athlete_tokens s"]
  by (simp add: check_activities_running sent_to_append for_athletes_sent)

lemma completes_fails_at:
  "fetch env = Status 200 body \<Longrightarrow> k < length body \<Longrightarrow> (\<forall>i < k. sink env i) \<Longrightarrow>
   \<not> sink env k \<Longrightarrow> \<not> completes env"
  using snd_post_activities_fails_at [of k body "sink env" 0 "[]"]
  by (simp add: completes_def)

lemma check_activities_tokens: "athlete_tokens (state (check_activities env s)) = athlete_tokens s"
  by (simp add: check_activities_def for_athletes_tokens save_data_def case_prod_beta)

lemma check_activities_fetched:
  "athlete_tokens s \<noteq> [] \<Longrightarrow> channel env \<Longrightarrow>
   fetched (trace (check_activities env s)) = athlete_tokens s"
  by (simp add: check_activities_running fetched_append for_athletes_fetched)

lemma set_token_state:
  "state (set_token now d aid tok s) =
     \<lparr>athlete_tokens = AList.update aid tok (athlete_tokens s),
      last_checked = AList.update aid now (last_checked s)\<rparr>"
  by (simp add: set_token_def save_data_def Let_def)

lemma set_token_trace:
  "trace (set_token now d aid tok s) =
     (if d then [Dump (AList.update aid tok (athlete_tokens s))
                      (AList.update aid now (last_checked s))] else [])"
  by (simp add: set_token_def save_data_def Let_def)

lemma check_activities_windows:
  "distinct (map fst (athlete_tokens s)) \<Longrightarrow> aid \<in> keys (athlete_tokens s) \<Longrightarrow> channel env \<Longrightarrow>
   windows aid (trace (check_activities env s)) = [after_timestamp (athletes env aid) s aid]"
  using keys_nonempty [of aid "athlete_tokens s"]
  by (simp add: check_activities_running windows_append for_athletes_windows)

lemma keys_image: "fst ` set d = keys d"
  by (simp add: keys_def)

lemma remove_athlete_state:
  "state (remove_athlete d aid s) =
     (if aid \<in> keys (athlete_tokens s)
      then if aid \<in> keys (last_checked s)
           then s\<lparr>athlete_tokens := AList.delete aid (athlete_tokens s),
                  last_checked := AList.delete aid (last_checked s)\<rparr>
           else s\<lparr>athlete_tokens := AList.delete aid (athlete_tokens s)\<rparr>
      else s)"
  by (simp add: remove_athlete_def save_data_def Let_def keys_image)

lemma remove_athlete_trace:
  "trace (remove_athlete d aid s) =
     (if d \<and> aid \<in> keys (athlete_tokens s) \<and> aid \<in> keys (last_checked s)
      then [Dump (AList.delete aid (athlete_tokens s)) (AList.delete aid (last_checked s))]
      else [])"
  by (simp add: remove_athlete_def save_data_def Let_def keys_image)

lemma check_activities_keys:
  "keys (last_checked (state (check_activities env s))) =
     keys (last_checked s)
       \<union> {a \<in> keys (athlete_tokens s). channel env \<and> completes (athletes env a)}"
proof (cases "athlete_tokens s = [] \<or> \<not> channel env")
  case True
  then show ?thesis
    using check_activities_idle [OF True] by (auto simp: keys_Nil)
next
  case False
  then show ?thesis
    by (simp add: check_activities_running for_athletes_keys)
qed

lemma step_subset:
  assumes "keys (last_checked s) \<subseteq> keys (athlete_tokens s)"
  shows "keys (last_checked (state (step op s))) \<subseteq> keys (athlete_tokens (state (step op s)))"
proof (cases op)
  case (Set_token now d aid tok)
  then show ?thesis using assms by (auto simp: set_token_state keys_update)
next
  case (Remove_athlete d aid)
  then show ?thesis using assms by (auto simp: remove_athlete_state keys_delete)
next
  case (Check_activities env)
  then show ?thesis using assms
    by (auto simp: check_activities_keys check_activities_tokens)
qed

lemma run_subset:
  "keys (last_checked s) \<subseteq> keys (athlete_tokens s) \<Longrightarrow>
   keys (last_checked (run ops s)) \<subseteq> keys (athlete_tokens (run ops s))"
  by (induction ops arbitrary: s) (simp_all add: step_subset)


section \<open>The watermark over successive cycles\<close>

text \<open>
  C1, as amended. For every athlete and every answer and delivery, a cycle that updates
  the athlete's timestamp in \<^verbatim>\<open>last_checked\<close> sets it to the clock reading
  \<^verbatim>\<open>datetime.now()\<close> taken when the athlete's \<^verbatim>\<open>try\<close> block has ended, and a cycle that
  does not update it leaves it as it is; the new value is not compared with the old one.
  So the timestamp is non-decreasing across cycles provided the clock readings are: the
  readings taken for the athlete in successive cycles do not decrease and none is earlier
  than the timestamp stored at the start.
\<close>

theorem watermark_follows_clock:
  "watermark (state (check_activities env s)) aid =
     (if channel env \<and> aid \<in> keys (athlete_tokens s) \<and> completes (athletes env aid)
      then Some (now_update (athletes env aid))
      else watermark s aid)
   \<and> (sorted (map (\<lambda>env. now_update (athletes env aid)) envs) \<longrightarrow>
        (\<forall>t. watermark s aid = Some t \<longrightarrow>
           (\<forall>env \<in> set envs. t \<le> now_update (athletes env aid))) \<longrightarrow>
        sorted (watermarks aid (s # cycles envs s)))"
proof -
  have "sorted (watermarks aid (s # cycles envs s))"
    if "sorted (map (\<lambda>env. now_update (athletes env aid)) envs)"
      and "\<forall>t. watermark s aid = Some t \<longrightarrow> (\<forall>env \<in> set envs. t \<le> now_update (athletes env aid))"
    using that
  proof (induction envs arbitrary: s)
    case Nil
    then show ?case by (simp split: option.splits)
  next
    case (Cons env envs)
    let ?clk = "\<lambda>env. now_update (athletes env aid)"
    let ?s' = "state (check_activities env s)"
    have step: "watermark ?s' aid = watermark s aid \<or> watermark ?s' aid = Some (?clk env)"
      by (simp add: check_activities_watermark)
    have later: "\<forall>env' \<in> set envs. ?clk env \<le> ?clk env'"
      using Cons.prems(1) by simp
    have bound': "\<forall>t. watermark ?s' aid = Some t \<longrightarrow> (\<forall>env' \<in> set envs. t \<le> ?clk env')"
      using step later Cons.prems(2) by auto
    have tail: "sorted (watermarks aid (?s' # cycles envs ?s'))"
      using Cons.IH [of ?s'] Cons.prems(1) bound' by simp
    have cyc: "cycles (env # envs) s = ?s' # cycles envs ?s'"
      by (simp add: Let_def)
    show ?case
    proof (cases "watermark s aid")
      case None
      then show ?thesis using tail cyc by simp
    next
      case (Some t)
      have "t \<le> t'" if "t' \<in> set (watermarks aid (?s' # cycles envs ?s'))" for t'
      proof -
        from that have "watermark ?s' aid = Some t' \<or> t' \<in> set (watermarks aid (cycles envs ?s'))"
          by (auto split: option.splits)
        then have "watermark ?s' aid = Some t' \<or> t' \<in> ?clk ` set envs"
          using watermarks_cycles_cases [of t' aid envs ?s'] by blast
        then show ?thesis
          using step Some Cons.prems(2) by auto
      qed
      then show ?thesis using tail cyc Some by simp
    qed
  qed
  then show ?thesis
    by (simp add: check_activities_watermark)
qed

theorem watermark_follows_clock_witness:
  "sorted (map (\<lambda>env. now_update (athletes env ''U1''))
             [uniform_cycle (Status 200 []) (\<lambda>_. True) 2000, uniform_cycle Fetch_raises (\<lambda>_. True) 3000])
   \<and> watermark (one_athlete 1000) ''U1'' = Some 1000
   \<and> watermark (state (check_activities (uniform_cycle (Status 200 []) (\<lambda>_. True) 2000)
                          (one_athlete 1000))) ''U1'' = Some 2000
   \<and> sorted (watermarks ''U1''
        (one_athlete 1000 #
         cycles [uniform_cycle (Status 200 []) (\<lambda>_. True) 2000,
                 uniform_cycle Fetch_raises (\<lambda>_. True) 3000] (one_athlete 1000)))"
  using watermark_follows_clock [of "uniform_cycle (Status 200 []) (\<lambda>_. True) 2000"
      "one_athlete 1000" "''U1''"
      "[uniform_cycle (Status 200 []) (\<lambda>_. True) 2000, uniform_cycle Fetch_raises (\<lambda>_. True) 3000]"]
  by (simp add: uniform_cycle_def one_athlete_def watermark_def keys_def completes_def)

text \<open>
  The claim as stated fails: the clock is a naive local time, which goes back when
  daylight saving ends or the clock is set. With the readings 3000 and then 2000 the
  timestamp goes from 3000 back to 2000, whatever the GET returned.
\<close>

theorem watermark_decreases_counterexample:
  "watermarks ''U1''
     (one_athlete 1000 #
      cycles [uniform_cycle (Status 200 []) (\<lambda>_. True) 3000,
              uniform_cycle (Status 200 []) (\<lambda>_. True) 2000] (one_athlete 1000))
     = [1000, 3000, 2000]
   \<and> \<not> sorted (watermarks ''U1''
     (one_athlete 1000 #
      cycles [uniform_cycle (Status 200 []) (\<lambda>_. True) 3000,
              uniform_cycle (Status 200 []) (\<lambda>_. True) 2000] (one_athlete 1000)))"
  by (simp add: evaluation Let_def)

section \<open>The order of delivery\<close>

text \<open>
  C2, as amended. The cycle does not sort: \<^verbatim>\<open>for activity in activities\<close> posts the
  activities in the order in which the GET returned them. For an athlete whose GET
  returns status 200 with the list \<open>body\<close>, the activities delivered in the cycle are a
  prefix of \<open>body\<close>, in the same order; they are the whole of \<open>body\<close> when no
  \<^verbatim>\<open>post_activity\<close> raises; and they are in ascending \<^verbatim>\<open>start_date_local\<close> order
  whenever \<open>body\<close> is.
\<close>

theorem delivery_in_fetch_order:
  assumes "distinct (map fst (athlete_tokens s))"
    and "aid \<in> keys (athlete_tokens s)"
    and "channel env"
    and "fetch (athletes env aid) = Status 200 body"
  shows "(\<exists>k \<le> length body. sent_to aid (trace (check_activities env s)) = take k body)
    \<and> ((\<forall>i < length body. sink (athletes env aid) i) \<longrightarrow>
         sent_to aid (trace (check_activities env s)) = body)
    \<and> (sorted (map start_date_local body) \<longrightarrow>
         sorted (map start_date_local (sent_to aid (trace (check_activities env s)))))"
proof -
  have sent: "sent_to aid (trace (check_activities env s)) = delivered (sink (athletes env aid)) 0 body"
    using check_activities_sent [OF assms(1-3)] assms(4) by (simp add: deliveries_def)
  obtain k where k: "k \<le> length body" "delivered (sink (athletes env aid)) 0 body = take k body"
    using delivered_take by blast
  have "\<exists>k \<le> length body. sent_to aid (trace (check_activities env s)) = take k body"
    using sent k by auto
  moreover have "(\<forall>i < length body. sink (athletes env aid) i) \<longrightarrow>
         sent_to aid (trace (check_activities env s)) = body"
    using sent delivered_all_ok [of body "sink (athletes env aid)" 0] by simp
  moreover have "sorted (map start_date_local body) \<longrightarrow>
         sorted (map start_date_local (sent_to aid (trace (check_activities env s))))"
    using sent k(2) by (simp add: sorted_map sorted_wrt_take)
  ultimately show ?thesis by blast
qed

theorem delivery_in_fetch_order_witness:
  "distinct (map fst (athlete_tokens (one_athlete 0)))
   \<and> ''U1'' \<in> keys (athlete_tokens (one_athlete 0))
   \<and> channel (uniform_cycle (Status 200 [\<lparr>act_id = 1, start_date_local = 10\<rparr>,
                                          \<lparr>act_id = 2, start_date_local = 30\<rparr>]) (\<lambda>_. True) 50)
   \<and> sorted (map start_date_local [\<lparr>act_id = 1, start_date_local = 10\<rparr>,
                                    \<lparr>act_id = 2, start_date_local = 30\<rparr>])
   \<and> sent_to ''U1'' (trace (check_activities
         (uniform_cycle (Status 200 [\<lparr>act_id = 1, start_date_local = 10\<rparr>,
                                     \<lparr>act_id = 2, start_date_local = 30\<rparr>]) (\<lambda>_. True) 50)
         (one_athlete 0)))
       = [\<lparr>act_id = 1, start_date_local = 10\<rparr>, \<lparr>act_id = 2, start_date_local = 30\<rparr>]
   \<and> sorted (map start_date_local (sent_to ''U1'' (trace (check_activities
         (uniform_cycle (Status 200 [\<lparr>act_id = 1, start_date_local = 10\<rparr>,
                                     \<lparr>act_id = 2, start_date_local = 30\<rparr>]) (\<lambda>_. True) 50)
         (one_athlete 0)))))"
  using delivery_in_fetch_order [of "one_athlete 0" "''U1''"
      "uniform_cycle (Status 200 [\<lparr>act_id = 1, start_date_local = 10\<rparr>,
                                  \<lparr>act_id = 2, start_date_local = 30\<rparr>]) (\<lambda>_. True) 50"
      "[\<lparr>act_id = 1, start_date_local = 10\<rparr>, \<lparr>act_id = 2, start_date_local = 30\<rparr>]"]
  by (simp add: uniform_cycle_def one_athlete_def keys_def)

text \<open>
  The claim as stated fails: a list returned out of chronological order is delivered
  out of chronological order.
\<close>

theorem delivery_unsorted_counterexample:
  "sent_to ''U1'' (trace (check_activities
      (uniform_cycle (Status 200 [\<lparr>act_id = 1, start_date_local = 30\<rparr>,
                                  \<lparr>act_id = 2, start_date_local = 10\<rparr>]) (\<lambda>_. True) 50)
      (one_athlete 0)))
     = [\<lparr>act_id = 1, start_date_local = 30\<rparr>, \<lparr>act_id = 2, start_date_local = 10\<rparr>]
   \<and> \<not> sorted (map start_date_local (sent_to ''U1'' (trace (check_activities
      (uniform_cycle (Status 200 [\<lparr>act_id = 1, start_date_local = 30\<rparr>,
                                  \<lparr>act_id = 2, start_date_local = 10\<rparr>]) (\<lambda>_. True) 50)
      (one_athlete 0)))))"
  by (simp add: evaluation)

section \<open>A delivery that fails\<close>

text \<open>
  C3, as amended. When the GET returns \<open>body\<close> and the call of \<^verbatim>\<open>post_activity\<close> for the
  activity at index \<open>k\<close> (counted from 0) is the first to raise, exactly the \<open>k\<close>
  activities before it are delivered, none after it, and the exception skips the update
  of \<^verbatim>\<open>last_checked\<close>: the athlete's timestamp is left at its value from before the cycle.
\<close>

theorem delivery_failure_keeps_watermark:
  assumes "distinct (map fst (athlete_tokens s))"
    and "aid \<in> keys (athlete_tokens s)"
    and "channel env"
    and "fetch (athletes env aid) = Status 200 body"
    and "k < length body"
    and "\<forall>i < k. sink (athletes env aid) i"
    and "\<not> sink (athletes env aid) k"
  shows "sent_to aid (trace (check_activities env s)) = take k body
    \<and> watermark (state (check_activities env s)) aid = watermark s aid"
proof -
  have "delivered (sink (athletes env aid)) 0 body = take k body"
    using delivered_fails_at [of k body "sink (athletes env aid)" 0] assms(5-7) by simp
  then have "sent_to aid (trace (check_activities env s)) = take k body"
    using check_activities_sent [OF assms(1-3)] assms(4) by (simp add: deliveries_def)
  moreover have "\<not> completes (athletes env aid)"
    using completes_fails_at [OF assms(4-7)] .
  then have "watermark (state (check_activities env s)) aid = watermark s aid"
    by (simp add: check_activities_watermark)
  ultimately show ?thesis by simp
qed

theorem delivery_failure_keeps_watermark_witness:
  "distinct (map fst (athlete_tokens (one_athlete 5)))
   \<and> ''U1'' \<in> keys (athlete_tokens (one_athlete 5))
   \<and> (1::nat) < length [\<lparr>act_id = 1, start_date_local = 10\<rparr>,
                          \<lparr>act_id = 2, start_date_local = 20\<rparr>,
                          \<lparr>act_id = 3, start_date_local = 30\<rparr>]
   \<and> sent_to ''U1'' (trace (check_activities
         (uniform_cycle (Status 200 [\<lparr>act_id = 1, start_date_local = 10\<rparr>,
                                     \<lparr>act_id = 2, start_date_local = 20\<rparr>,
                                     \<lparr>act_id = 3, start_date_local = 30\<rparr>]) (\<lambda>i. i \<noteq> 1) 50)
         (one_athlete 5)))
       = [\<lparr>act_id = 1, start_date_local = 10\<rparr>]
   \<and> watermark (state (check_activities
         (uniform_cycle (Status 200 [\<lparr>act_id = 1, start_date_local = 10\<rparr>,
                                     \<lparr>act_id = 2, start_date_local = 20\<rparr>,
                                     \<lparr>act_id = 3, start_date_local = 30\<rparr>]) (\<lambda>i. i \<noteq> 1) 50)
         (one_athlete 5))) ''U1'' = Some 5"
  using delivery_failure_keeps_watermark [of "one_athlete 5" "''U1''"
      "uniform_cycle (Status 200 [\<lparr>act_id = 1, start_date_local = 10\<rparr>,
                                  \<lparr>act_id = 2, start_date_local = 20\<rparr>,
                                  \<lparr>act_id = 3, start_date_local = 30\<rparr>]) (\<lambda>i. i \<noteq> 1) 50"
      "[\<lparr>act_id = 1, start_date_local = 10\<rparr>, \<lparr>act_id = 2, start_date_local = 20\<rparr>,
        \<lparr>act_id = 3, start_date_local = 30\<rparr>]" 1]
  by (simp add: uniform_cycle_def one_athlete_def keys_def watermark_def)

text \<open>
  The claim as stated fails: after the second of three deliveries has failed, the
  timestamp is the one from before the cycle, not the start time of the one activity that
  was delivered.
\<close>

theorem delivery_failure_counterexample:
  "sent_to ''U1'' (trace (check_activities
      (uniform_cycle (Status 200 [\<lparr>act_id = 1, start_date_local = 10\<rparr>,
                                  \<lparr>act_id = 2, start_date_local = 20\<rparr>,
                                  \<lparr>act_id = 3, start_date_local = 30\<rparr>]) (\<lambda>i. i \<noteq> 1) 50)
      (one_athlete 5)))
     = [\<lparr>act_id = 1, start_date_local = 10\<rparr>]
   \<and> watermark (state (check_activities
      (uniform_cycle (Status 200 [\<lparr>act_id = 1, start_date_local = 10\<rparr>,
                                  \<lparr>act_id = 2, start_date_local = 20\<rparr>,
                                  \<lparr>act_id = 3, start_date_local = 30\<rparr>]) (\<lambda>i. i \<noteq> 1) 50)
      (one_athlete 5))) ''U1''
     = watermark (one_athlete 5) ''U1''
   \<and> watermark (state (check_activities
      (uniform_cycle (Status 200 [\<lparr>act_id = 1, start_date_local = 10\<rparr>,
                                  \<lparr>act_id = 2, start_date_local = 20\<rparr>,
                                  \<lparr>act_id = 3, start_date_local = 30\<rparr>]) (\<lambda>i. i \<noteq> 1) 50)
      (one_athlete 5))) ''U1''
     \<noteq> Some (start_date_local \<lparr>act_id = 1, start_date_local = 10\<rparr>)"
  by (simp add: evaluation)

section \<open>A rejected credential\<close>




section \<open>A fetch that fails\<close>

text \<open>
  C5. A fetch that fails must not advance the athlete's timestamp. The program keeps
  this when the request raises (the \<^verbatim>\<open>except\<close> branch skips the update) and breaks it
  when the API answers with a status other than 200: \<^verbatim>\<open>get_recent_activities\<close> logs the
  failure and returns the empty list, and the caller then stores the clock reading. At
  the stored timestamp 1000 and the clock reading 2000, a status 500 or 429 leaves 2000,
  a request that raises leaves 1000.
\<close>

theorem failed_fetch_advances_watermark:
  "watermark (one_athlete 1000) ''U1'' = Some 1000
   \<and> watermark (state (check_activities (uniform_cycle (Status 500 []) (\<lambda>_. True) 2000)
                          (one_athlete 1000))) ''U1'' = Some 2000
   \<and> watermark (state (check_activities (uniform_cycle (Status 429 []) (\<lambda>_. True) 2000)
                          (one_athlete 1000))) ''U1'' = Some 2000
   \<and> watermark (state (check_activities (uniform_cycle Fetch_raises (\<lambda>_. True) 2000)
                          (one_athlete 1000))) ''U1'' = Some 1000"
  by (simp add: evaluation)

section \<open>Registration\<close>

text \<open>
  C6, as amended. \<^verbatim>\<open>set_token\<close> at the clock reading \<open>now\<close> stores \<open>now\<close> itself as the
  athlete's timestamp, not \<open>now\<close> minus 24 hours, so the first GET for a freshly
  registered athlete asks for the activities after \<open>now\<close> (in whole seconds). The window
  of the last 24 hours is used only for an athlete that has a token and no timestamp.
\<close>

theorem registration_watermark:
  "watermark (state (set_token now d aid tok s)) aid = Some now
   \<and> (distinct (map fst (athlete_tokens s)) \<longrightarrow> channel env \<longrightarrow>
        windows aid (trace (check_activities env (state (set_token now d aid tok s))))
          = [epoch_seconds (utc_offset (athletes env aid)) now])
   \<and> (distinct (map fst (athlete_tokens s)) \<longrightarrow> channel env \<longrightarrow>
        aid \<in> keys (athlete_tokens s) \<longrightarrow> watermark s aid = None \<longrightarrow>
        windows aid (trace (check_activities env s))
          = [epoch_seconds (utc_offset (athletes env aid))
               (now_window (athletes env aid) - hours_24)])"
proof -
  let ?s' = "state (set_token now d aid tok s)"
  have w: "watermark ?s' aid = Some now"
    by (simp add: set_token_state watermark_def update_conv')
  have "windows aid (trace (check_activities env ?s'))
      = [epoch_seconds (utc_offset (athletes env aid)) now]"
    if "distinct (map fst (athlete_tokens s))" "channel env"
  proof -
    have "distinct (map fst (athlete_tokens ?s'))"
      using that(1) by (simp add: set_token_state distinct_update)
    moreover have "aid \<in> keys (athlete_tokens ?s')"
      by (simp add: set_token_state keys_update)
    ultimately have "windows aid (trace (check_activities env ?s'))
        = [after_timestamp (athletes env aid) ?s' aid]"
      using check_activities_windows that(2) by blast
    then show ?thesis
      using w by (simp add: after_timestamp_def watermark_def)
  qed
  moreover have "windows aid (trace (check_activities env s))
        = [epoch_seconds (utc_offset (athletes env aid))
             (now_window (athletes env aid) - hours_24)]"
    if "distinct (map fst (athlete_tokens s))" "channel env" "aid \<in> keys (athlete_tokens s)"
       "watermark s aid = None"
    using check_activities_windows [OF that(1,3,2)] that(4)
    by (simp add: after_timestamp_def watermark_def)
  ultimately show ?thesis using w by blast
qed

theorem registration_watermark_witness:
  "watermark (state (set_token 1700000000000000 True ''U1'' ''token1''
       \<lparr>athlete_tokens = [], last_checked = []\<rparr>)) ''U1'' = Some 1700000000000000
   \<and> windows ''U1'' (trace (check_activities
        (uniform_cycle (Status 200 []) (\<lambda>_. True) 1700000900000000)
        (state (set_token 1700000000000000 True ''U1'' ''token1''
           \<lparr>athlete_tokens = [], last_checked = []\<rparr>)))) = [epoch_seconds (\<lambda>_. 0) 1700000000000000]
   \<and> watermark \<lparr>athlete_tokens = [(''U1'', ''token1'')], last_checked = []\<rparr> ''U1'' = None
   \<and> windows ''U1'' (trace (check_activities
        (uniform_cycle (Status 200 []) (\<lambda>_. True) 1700000900000000)
        \<lparr>athlete_tokens = [(''U1'', ''token1'')], last_checked = []\<rparr>))
       = [epoch_seconds (\<lambda>_. 0) (1700000900000000 - hours_24)]"
  using registration_watermark [of 1700000000000000 True "''U1''" "''token1''"
      "\<lparr>athlete_tokens = [], last_checked = []\<rparr>"
      "uniform_cycle (Status 200 []) (\<lambda>_. True) 1700000900000000"]
    registration_watermark [of 0 True "''U1''" "''token1''"
      "\<lparr>athlete_tokens = [(''U1'', ''token1'')], last_checked = []\<rparr>"
      "uniform_cycle (Status 200 []) (\<lambda>_. True) 1700000900000000"]
  by (simp add: uniform_cycle_def keys_def watermark_def)

text \<open>
  The claim as stated fails: registration at 1700000000 seconds stores that instant, and
  the first window starts there, not 24 hours earlier at 1699913600.
\<close>

theorem registration_counterexample:
  "watermark (state (set_token 1700000000000000 True ''U1'' ''token1''
       \<lparr>athlete_tokens = [], last_checked = []\<rparr>)) ''U1'' = Some 1700000000000000
   \<and> (1700000000000000 :: timestamp) - hours_24 = 1699913600000000
   \<and> windows ''U1'' (trace (check_activities
        (uniform_cycle (Status 200 []) (\<lambda>_. True) 1700000900000000)
        (state (set_token 1700000000000000 True ''U1'' ''token1''
           \<lparr>athlete_tokens = [], last_checked = []\<rparr>)))) = [1700000000]"
  by (simp add: evaluation)

section \<open>Consistency of the two dictionaries\<close>

text \<open>
  C7, as amended. Start from a bot in which every id of \<^verbatim>\<open>last_checked\<close> is in
  \<^verbatim>\<open>athlete_tokens\<close> and apply any sequence of commands and cycles. Then every id of
  \<^verbatim>\<open>last_checked\<close> is still in \<^verbatim>\<open>athlete_tokens\<close>. A cycle leaves \<^verbatim>\<open>athlete_tokens\<close> as it
  is and deletes no timestamp, but it adds one for each athlete that has a token and no
  timestamp and whose \<^verbatim>\<open>try\<close> block reaches its end. \<^verbatim>\<open>set_token\<close> adds the id to both
  dictionaries; \<^verbatim>\<open>remove_athlete\<close> of an id that has a timestamp deletes it from both, and
  of an id without a token changes nothing; and what each of the two writes, when the
  write succeeds, is one file with both dictionaries as they are after the command.
\<close>

theorem stores_invariant:
  assumes "keys (last_checked s0) \<subseteq> keys (athlete_tokens s0)"
    and "s = run ops s0"
  shows "keys (last_checked s) \<subseteq> keys (athlete_tokens s)
    \<and> athlete_tokens (state (check_activities env s)) = athlete_tokens s
    \<and> keys (last_checked (state (check_activities env s)))
        = keys (last_checked s)
          \<union> {a \<in> keys (athlete_tokens s). channel env \<and> completes (athletes env a)}
    \<and> keys (athlete_tokens (state (set_token now d aid tok s))) = insert aid (keys (athlete_tokens s))
    \<and> keys (last_checked (state (set_token now d aid tok s))) = insert aid (keys (last_checked s))
    \<and> trace (set_token now d aid tok s)
        = (if d then [Dump (athlete_tokens (state (set_token now d aid tok s)))
                           (last_checked (state (set_token now d aid tok s)))]
           else [])
    \<and> (aid \<in> keys (last_checked s) \<longrightarrow>
          keys (athlete_tokens (state (remove_athlete d aid s))) = keys (athlete_tokens s) - {aid}
          \<and> keys (last_checked (state (remove_athlete d aid s))) = keys (last_checked s) - {aid}
          \<and> trace (remove_athlete d aid s)
              = (if d then [Dump (athlete_tokens (state (remove_athlete d aid s)))
                                 (last_checked (state (remove_athlete d aid s)))]
                 else []))
    \<and> (aid \<notin> keys (athlete_tokens s) \<longrightarrow>
          state (remove_athlete d aid s) = s \<and> trace (remove_athlete d aid s) = [])"
proof -
  have c: "keys (last_checked s) \<subseteq> keys (athlete_tokens s)"
    using run_subset [OF assms(1)] assms(2) by simp
  have rm: "keys (athlete_tokens (state (remove_athlete d aid s))) = keys (athlete_tokens s) - {aid}
          \<and> keys (last_checked (state (remove_athlete d aid s))) = keys (last_checked s) - {aid}
          \<and> trace (remove_athlete d aid s)
              = (if d then [Dump (athlete_tokens (state (remove_athlete d aid s)))
                                 (last_checked (state (remove_athlete d aid s)))]
                 else [])"
    if "aid \<in> keys (last_checked s)"
  proof -
    have "aid \<in> keys (athlete_tokens s)" using that c by blast
    then show ?thesis using that
      by (simp add: remove_athlete_state remove_athlete_trace keys_delete)
  qed
  have no: "state (remove_athlete d aid s) = s \<and> trace (remove_athlete d aid s) = []"
    if "aid \<notin> keys (athlete_tokens s)"
    using that by (simp add: remove_athlete_state remove_athlete_trace)
  show ?thesis
    using c rm no
    by (simp add: check_activities_tokens check_activities_keys set_token_state set_token_trace
          keys_update)
qed

theorem stores_invariant_witness:
  "keys (last_checked (state (init (Json (Some [(''U1'', ''token1'')]) None))))
     \<subseteq> keys (athlete_tokens (state (init (Json (Some [(''U1'', ''token1'')]) None))))
   \<and> run [Set_token 1500 True ''U2'' ''token2'',
           Check_activities (cycle_for ''U1'' Fetch_raises 2000)]
          (state (init (Json (Some [(''U1'', ''token1'')]) None)))
       = \<lparr>athlete_tokens = [(''U1'', ''token1''), (''U2'', ''token2'')],
          last_checked = [(''U2'', 2000)]\<rparr>
   \<and> keys (last_checked \<lparr>athlete_tokens = [(''U1'', ''token1''), (''U2'', ''token2'')],
                           last_checked = [(''U2'', 2000)]\<rparr>)
       \<subseteq> keys (athlete_tokens \<lparr>athlete_tokens = [(''U1'', ''token1''), (''U2'', ''token2'')],
                                  last_checked = [(''U2'', 2000)]\<rparr>)
   \<and> ''U2'' \<in> keys (last_checked \<lparr>athlete_tokens = [(''U1'', ''token1''), (''U2'', ''token2'')],
                                     last_checked = [(''U2'', 2000)]\<rparr>)
   \<and> trace (remove_athlete True ''U2''
        \<lparr>athlete_tokens = [(''U1'', ''token1''), (''U2'', ''token2'')],
         last_checked = [(''U2'', 2000)]\<rparr>) = [Dump [(''U1'', ''token1'')] []]"
  using stores_invariant [of "state (init (Json (Some [(''U1'', ''token1'')]) None))"
      "\<lparr>athlete_tokens = [(''U1'', ''token1''), (''U2'', ''token2'')], last_checked = [(''U2'', 2000)]\<rparr>"
      "[Set_token 1500 True ''U2'' ''token2'', Check_activities (cycle_for ''U1'' Fetch_raises 2000)]"
      "cycle_for ''U1'' Fetch_raises 2000" 0 True "''U2''" "''token2''"]
  by (simp add: evaluation AList.delete_eq)

text \<open>
  The claim as stated fails on a bot loaded from a state file that has tokens and no
  timestamps, every id of \<^verbatim>\<open>last_checked\<close> being in \<^verbatim>\<open>athlete_tokens\<close>: there a cycle adds
  an entry to \<^verbatim>\<open>last_checked\<close>, and \<^verbatim>\<open>remove_athlete\<close> deletes the token, raises
  \<^verbatim>\<open>KeyError\<close> at the second \<^verbatim>\<open>del\<close> and writes nothing.
\<close>

theorem stores_counterexample:
  "athlete_tokens (state (init (Json (Some [(''U1'', ''token1'')]) None))) = [(''U1'', ''token1'')]
   \<and> last_checked (state (init (Json (Some [(''U1'', ''token1'')]) None))) = []
   \<and> last_checked (state (check_activities (uniform_cycle (Status 200 []) (\<lambda>_. True) 2000)
        (state (init (Json (Some [(''U1'', ''token1'')]) None))))) = [(''U1'', 2000)]
   \<and> remove_athlete True ''U1'' (state (init (Json (Some [(''U1'', ''token1'')]) None)))
       = \<lparr>state = \<lparr>athlete_tokens = [], last_checked = []\<rparr>, trace = [],
          raised = Some (KeyError ''U1'')\<rparr>"
  by (simp add: evaluation AList.delete_eq)

section \<open>When the state is saved\<close>

text \<open>
  C8, as amended. A cycle that reaches the loop saves once, after the loop: its trace is
  the trace of the loop over all athletes, in which every athlete is fetched and nothing
  is written, followed by the single write of \<^verbatim>\<open>save_data\<close> (when it succeeds) with the
  dictionaries as they are after the last athlete.
\<close>

theorem save_once_after_loop:
  assumes "athlete_tokens s \<noteq> []" and "channel env"
  shows "trace (check_activities env s)
       = snd (for_athletes (athletes env) (athlete_tokens s) s)
         @ (if disk env
            then [Dump (athlete_tokens (state (check_activities env s)))
                       (last_checked (state (check_activities env s)))]
            else [])
    \<and> (\<forall>e \<in> set (snd (for_athletes (athletes env) (athlete_tokens s) s)). \<not> is_dump e)
    \<and> fetched (snd (for_athletes (athletes env) (athlete_tokens s) s)) = athlete_tokens s"
  using assms for_athletes_no_dump
  by (auto simp: check_activities_running for_athletes_fetched for_athletes_tokens)

theorem save_once_after_loop_witness:
  "athlete_tokens (two_athletes 1000000) \<noteq> []
   \<and> channel (uniform_cycle (Status 200 []) (\<lambda>_. True) 2000000)
   \<and> trace (check_activities (uniform_cycle (Status 200 []) (\<lambda>_. True) 2000000) (two_athletes 1000000))
       = snd (for_athletes (athletes (uniform_cycle (Status 200 []) (\<lambda>_. True) 2000000))
                (athlete_tokens (two_athletes 1000000)) (two_athletes 1000000))
         @ [Dump [(''U1'', ''token1''), (''U2'', ''token2'')] [(''U1'', 2000000), (''U2'', 2000000)]]
   \<and> fetched (snd (for_athletes (athletes (uniform_cycle (Status 200 []) (\<lambda>_. True) 2000000))
                (athlete_tokens (two_athletes 1000000)) (two_athletes 1000000)))
       = [(''U1'', ''token1''), (''U2'', ''token2'')]"
  using save_once_after_loop [of "two_athletes 1000000"
      "uniform_cycle (Status 200 []) (\<lambda>_. True) 2000000"]
  by (simp add: evaluation)

text \<open>
  The claim as stated fails: with two athletes, the GET for the second comes before
  anything is written.
\<close>

theorem save_between_athletes_counterexample:
  "trace (check_activities (uniform_cycle (Status 200 []) (\<lambda>_. True) 2000000) (two_athletes 1000000))
     = [Get ''U1'' ''token1'' 1,
        Get ''U2'' ''token2'' 1,
        Dump [(''U1'', ''token1''), (''U2'', ''token2'')] [(''U1'', 2000000), (''U2'', 2000000)]]"
  by (simp add: evaluation)

section \<open>Isolation of failures\<close>

text \<open>
  C9. In a cycle that reaches the loop, no exception of a fetch or of a delivery leaves
  the loop: the GET is issued for every athlete of \<^verbatim>\<open>athlete_tokens\<close>, in order, whatever
  happened to the athletes before; the only exception that can leave the cycle is that of
  \<^verbatim>\<open>save_data\<close>; and what the cycle does for an athlete (its timestamp, its deliveries)
  depends on what that athlete alone meets.
\<close>

theorem failures_isolated:
  assumes "athlete_tokens s \<noteq> []" and "channel env"
  shows "fetched (trace (check_activities env s)) = athlete_tokens s
    \<and> raised (check_activities env s) = (if disk env then None else Some OSError)
    \<and> (\<forall>aid \<in> keys (athlete_tokens s).
          watermark (state (check_activities env s)) aid
            = (if completes (athletes env aid) then Some (now_update (athletes env aid))
               else watermark s aid))
    \<and> (distinct (map fst (athlete_tokens s)) \<longrightarrow>
         (\<forall>aid \<in> keys (athlete_tokens s).
            sent_to aid (trace (check_activities env s)) = deliveries (athletes env aid)))"
proof -
  have "raised (check_activities env s) = (if disk env then None else Some OSError)"
    using assms by (simp add: check_activities_running)
  then show ?thesis
    using assms check_activities_fetched [OF assms] check_activities_sent [of s _ env]
    by (simp add: check_activities_watermark)
qed

theorem failures_isolated_witness:
  "athlete_tokens (two_athletes 1000) \<noteq> []
   \<and> channel (cycle_for ''U1'' Fetch_raises 2000)
   \<and> fetched (trace (check_activities (cycle_for ''U1'' Fetch_raises 2000) (two_athletes 1000)))
       = [(''U1'', ''token1''), (''U2'', ''token2'')]
   \<and> raised (check_activities (cycle_for ''U1'' Fetch_raises 2000) (two_athletes 1000)) = None
   \<and> watermark (state (check_activities (cycle_for ''U1'' Fetch_raises 2000) (two_athletes 1000))) ''U1''
       = Some 1000
   \<and> watermark (state (check_activities (cycle_for ''U1'' Fetch_raises 2000) (two_athletes 1000))) ''U2''
       = Some 2000"
  using failures_isolated [of "two_athletes 1000" "cycle_for ''U1'' Fetch_raises 2000"]
  by (simp add: cycle_for_def two_athletes_def keys_def completes_def watermark_def)

section \<open>Startup\<close>

text \<open>
  C10. When the state file does not exist at startup, \<^verbatim>\<open>load_data\<close> does not raise: it
  catches the missing-file error and leaves both \<^verbatim>\<open>athlete_tokens\<close> and \<^verbatim>\<open>last_checked\<close>
  empty, so the bot starts with no monitored athlete.
\<close>

theorem init_file_not_found:
  "raised (init File_not_found) = None
   \<and> athlete_tokens (state (init File_not_found)) = []
   \<and> last_checked (state (init File_not_found)) = []"
  by (simp add: init_def load_data_def)

end
